theory Spec2Isabelle
  imports Complex_Main
begin

section \<open>The external engine: data it returns and the interface it offers\<close>

text \<open>
  \<^verbatim>\<open>landmark_detector.py\<close> wraps \<^verbatim>\<open>mediapipe.solutions.hands.Hands\<close>. The engine is
  not part of the repository, so it is a parameter of the model. What the wrapper reads of
  the engine's result is modelled as records: a landmark with its fields \<open>x\<close>, \<open>y\<close>
  and \<open>z\<close>, a landmark list with its repeated field \<open>landmark\<close>, and the result tuple
  with its field \<open>multi_hand_landmarks\<close>, which is \<open>None\<close> or a list of hands.
  Python floats are only copied by the wrapper, never computed with; they are modelled
  as \<^typ>\<open>real\<close>.
\<close>

record normalized_landmark =
  x :: real
  y :: real
  z :: real

record normalized_landmark_list =
  landmark :: "normalized_landmark list"

record process_results =
  multi_hand_landmarks :: "normalized_landmark_list list option"

text \<open>
  The engine's interface: the constructor \<open>Hands\<close> takes the three configuration values
  and either raises (\<open>Inl\<close>) or yields the internal state of a new engine object;
  \<open>process\<close> takes the engine's internal state and the contents of a frame and either
  raises or returns a result, leaving the engine in a new internal state. \<open>'f\<close> is the
  type of frame contents, \<open>'s\<close> of engine states, \<open>'e\<close> of the engine's exceptions.
\<close>

record ('f, 's, 'e) mediapipe =
  Hands :: "int \<Rightarrow> real \<Rightarrow> real \<Rightarrow> 'e + 's"
  process :: "'s \<Rightarrow> 'f \<Rightarrow> ('e + process_results) \<times> 's"

section \<open>Objects and references\<close>

text \<open>
  Frames and engine objects are mutable Python objects reached through references.
  The store maps a reference to the contents of the array, respectively to the internal
  state of the engine object, it denotes; \<open>next_ref\<close> is the next unused reference.
  A detector object has the single attribute \<open>hand_processor\<close>, a reference to its engine.
\<close>

type_synonym ref = nat

record ('f, 's) heap =
  ndarrays :: "ref \<Rightarrow> 'f"
  hands_objs :: "ref \<Rightarrow> 's"
  next_ref :: ref

record landmark_detector =
  hand_processor :: ref

section \<open>Python's dict and enumerate\<close>

text \<open>
  A Python \<open>dict\<close> keeps its keys in insertion order: it is a list of key-value pairs.
  \<open>d[k] = v\<close> overwrites the value of an existing key where it stands and appends a new
  key at the end; \<open>d.get(k, None)\<close> is the value of \<open>k\<close> or \<open>None\<close>.
\<close>

type_synonym ('k, 'v) dict = "('k \<times> 'v) list"

fun dict_setitem :: "('k, 'v) dict \<Rightarrow> 'k \<Rightarrow> 'v \<Rightarrow> ('k, 'v) dict" where
  "dict_setitem [] k v = [(k, v)]"
| "dict_setitem ((k', v') # d) k v =
     (if k' = k then (k', v) # d else (k', v') # dict_setitem d k v)"

definition dict_get :: "('k, 'v) dict \<Rightarrow> 'k \<Rightarrow> 'v option" where
  "dict_get d k = map_of d k"

definition dict_keys :: "('k, 'v) dict \<Rightarrow> 'k list" where
  "dict_keys d = map fst d"

text \<open>\<open>enumerate(xs)\<close> pairs each element with its index, counted from 0.\<close>

definition enumerate_py :: "'a list \<Rightarrow> (int \<times> 'a) list" where
  "enumerate_py xs = zip (map int [0..<length xs]) xs"

section \<open>The class LandmarkDetector\<close>

text \<open>
  \<open>__init__\<close>: the three arguments go to the engine's constructor; the new engine
  object is stored under a fresh reference, which becomes \<open>self.hand_processor\<close>.
  An exception of the constructor leaves no detector.
\<close>

definition init ::
  "('f, 's, 'e) mediapipe \<Rightarrow> int \<Rightarrow> real \<Rightarrow> real \<Rightarrow> ('f, 's) heap
     \<Rightarrow> ('e + landmark_detector) \<times> ('f, 's) heap" where
  "init mp max_num_hands min_detection_confidence min_tracking_confidence h =
     (case Hands mp max_num_hands min_detection_confidence min_tracking_confidence of
        Inl e \<Rightarrow> (Inl e, h)
      | Inr eng \<Rightarrow>
          (Inr \<lparr>hand_processor = next_ref h\<rparr>,
           h\<lparr>hands_objs := (hands_objs h)(next_ref h := eng),
             next_ref := Suc (next_ref h)\<rparr>))"

text \<open>
  The inner loop of \<open>fetch_landmarks\<close>, over the enumerated landmarks of one hand:
  \<^verbatim>\<open>landmark_map[landmark_id] = (landmark.x, landmark.y)\<close>.
\<close>

fun for_landmarks ::
  "(int, real \<times> real) dict \<Rightarrow> (int \<times> normalized_landmark) list \<Rightarrow> (int, real \<times> real) dict" where
  "for_landmarks landmark_map [] = landmark_map"
| "for_landmarks landmark_map ((landmark_id, lm) # rest) =
     for_landmarks (dict_setitem landmark_map landmark_id (x lm, y lm)) rest"

text \<open>The outer loop, over the hands.\<close>

fun for_hands ::
  "(int, real \<times> real) dict \<Rightarrow> normalized_landmark_list list \<Rightarrow> (int, real \<times> real) dict" where
  "for_hands landmark_map [] = landmark_map"
| "for_hands landmark_map (hand_landmarks # rest) =
     for_hands (for_landmarks landmark_map (enumerate_py (landmark hand_landmarks))) rest"

text \<open>\<open>not multi_hand_landmarks\<close>: true of \<open>None\<close> and of the empty list.\<close>

definition py_not :: "'a list option \<Rightarrow> bool" where
  "py_not v = (case v of None \<Rightarrow> True | Some l \<Rightarrow> l = [])"

text \<open>
  \<open>fetch_landmarks\<close>: one call of the engine's \<open>process\<close> on the frame; an exception
  of the engine propagates; otherwise the hands' landmarks are written into a new dict.
  The result comes with the detector's attributes and the store after the call.
\<close>

definition fetch_landmarks ::
  "('f, 's, 'e) mediapipe \<Rightarrow> landmark_detector \<Rightarrow> ref \<Rightarrow> ('f, 's) heap
     \<Rightarrow> ('e + (int, real \<times> real) dict) \<times> landmark_detector \<times> ('f, 's) heap" where
  "fetch_landmarks mp self rgb_frame h =
     (case process mp (hands_objs h (hand_processor self)) (ndarrays h rgb_frame) of
        (outcome, eng') \<Rightarrow>
          (let h' = h\<lparr>hands_objs := (hands_objs h)(hand_processor self := eng')\<rparr> in
           case outcome of
             Inl e \<Rightarrow> (Inl e, self, h')
           | Inr results \<Rightarrow>
               (let multi = multi_hand_landmarks results;
                    landmark_map = []
                in if py_not multi then (Inr landmark_map, self, h')
                   else (Inr (for_hands landmark_map (the multi)), self, h'))))"

text \<open>\<open>fetch_landmark_position\<close>: \<open>self.fetch_landmarks(rgb_frame).get(landmark_id, None)\<close>.\<close>

definition fetch_landmark_position ::
  "('f, 's, 'e) mediapipe \<Rightarrow> landmark_detector \<Rightarrow> ref \<Rightarrow> int \<Rightarrow> ('f, 's) heap
     \<Rightarrow> ('e + (real \<times> real) option) \<times> landmark_detector \<times> ('f, 's) heap" where
  "fetch_landmark_position mp self rgb_frame landmark_id h =
     (case fetch_landmarks mp self rgb_frame h of
        (Inl e, self', h') \<Rightarrow> (Inl e, self', h')
      | (Inr landmark_position_map, self', h') \<Rightarrow>
          (Inr (dict_get landmark_position_map landmark_id), self', h'))"

section \<open>Notions of the specification\<close>

text \<open>
  The hands of an engine result: none when \<open>multi_hand_landmarks\<close> is \<open>None\<close>.
\<close>

definition detected_hands :: "process_results \<Rightarrow> normalized_landmark_list list" where
  "detected_hands results =
     (case multi_hand_landmarks results of None \<Rightarrow> [] | Some hands \<Rightarrow> hands)"

text \<open>A normalized position: both coordinates lie in the interval from 0 to 1.\<close>

definition unit_square :: "real \<times> real \<Rightarrow> bool" where
  "unit_square p = (0 \<le> fst p \<and> fst p \<le> 1 \<and> 0 \<le> snd p \<and> snd p \<le> 1)"

text \<open>
  The order of keys as the specification words it: the IDs of the first hand in
  enumeration order, followed by the IDs newly introduced by each later hand.
\<close>

definition new_ids :: "int list \<Rightarrow> int list \<Rightarrow> int list" where
  "new_ids seen ids = filter (\<lambda>k. k \<notin> set seen) ids"

fun claimed_insertion_order :: "int list \<Rightarrow> int list list \<Rightarrow> int list" where
  "claimed_insertion_order seen [] = seen"
| "claimed_insertion_order seen (ids # rest) =
     claimed_insertion_order (seen @ new_ids seen ids) rest"

text \<open>
  The hand that wins on a landmark ID: the last of the enumerated hands that has a
  landmark of this ID.
\<close>

fun last_hand_with :: "int \<Rightarrow> normalized_landmark_list list \<Rightarrow> normalized_landmark_list option" where
  "last_hand_with k [] = None"
| "last_hand_with k (hand # rest) =
     (case last_hand_with k rest of
        Some later \<Rightarrow> Some later
      | None \<Rightarrow> if 0 \<le> k \<and> nat k < length (landmark hand) then Some hand else None)"

section \<open>A test double of the engine\<close>

text \<open>
  A small engine for concrete runs. Its internal state counts the calls of \<open>process\<close>;
  a frame's contents is a number that selects the result: 0 no hands (\<open>None\<close>), 1 one
  hand, 2 two hands, 3 three hands, 4 an empty list of hands, 5 one hand that lies partly
  outside the image, and anything else makes the engine raise.
\<close>

datatype engine_error = ValueError | RuntimeError

definition hand_a :: normalized_landmark_list where
  "hand_a = \<lparr>landmark = [\<lparr>x = 1/10, y = 2/10, z = 0\<rparr>, \<lparr>x = 3/10, y = 4/10, z = 1/100\<rparr>,
                         \<lparr>x = 5/10, y = 6/10, z = 2/100\<rparr>]\<rparr>"

definition hand_b :: normalized_landmark_list where
  "hand_b = \<lparr>landmark = [\<lparr>x = 7/10, y = 8/10, z = 0\<rparr>, \<lparr>x = 9/10, y = 1, z = -1/100\<rparr>]\<rparr>"

definition hand_c :: normalized_landmark_list where
  "hand_c = \<lparr>landmark = [\<lparr>x = 1/4, y = 3/4, z = 0\<rparr>]\<rparr>"

definition hand_out :: normalized_landmark_list where
  "hand_out = \<lparr>landmark = [\<lparr>x = 3/2, y = 1/2, z = 0\<rparr>, \<lparr>x = -1/4, y = 1/4, z = 0\<rparr>]\<rparr>"

definition stub_results :: "nat \<Rightarrow> engine_error + process_results" where
  "stub_results frame =
     (if frame = 0 then Inr \<lparr>multi_hand_landmarks = None\<rparr>
      else if frame = 1 then Inr \<lparr>multi_hand_landmarks = Some [hand_a]\<rparr>
      else if frame = 2 then Inr \<lparr>multi_hand_landmarks = Some [hand_a, hand_b]\<rparr>
      else if frame = 3 then Inr \<lparr>multi_hand_landmarks = Some [hand_b, hand_a, hand_c]\<rparr>
      else if frame = 4 then Inr \<lparr>multi_hand_landmarks = Some []\<rparr>
      else if frame = 5 then Inr \<lparr>multi_hand_landmarks = Some [hand_out]\<rparr>
      else Inl RuntimeError)"

definition stub_mp :: "(nat, nat, engine_error) mediapipe" where
  "stub_mp =
     \<lparr>Hands = (\<lambda>max_num_hands min_detection_confidence min_tracking_confidence.
         if max_num_hands < 1 \<or> min_detection_confidence < 0 \<or> 1 < min_detection_confidence
            \<or> min_tracking_confidence < 0 \<or> 1 < min_tracking_confidence
         then Inl ValueError else Inr 0),
      process = (\<lambda>calls frame. (stub_results frame, Suc calls))\<rparr>"

text \<open>A store in which the array at reference \<open>r\<close> has the contents \<open>r\<close>.\<close>

definition stub_heap :: "(nat, nat) heap" where
  "stub_heap = \<lparr>ndarrays = (\<lambda>r. r), hands_objs = (\<lambda>r. 0), next_ref = 10\<rparr>"

definition stub_self :: landmark_detector where
  "stub_self = \<lparr>hand_processor = 7\<rparr>"

section \<open>Properties of dict and enumerate\<close>

lemma map_of_dict_setitem: "map_of (dict_setitem d k v) = (map_of d)(k \<mapsto> v)"
  by (induction d k v rule: dict_setitem.induct) (auto simp: fun_eq_iff)

lemma keys_dict_setitem:
  "map fst (dict_setitem d k v) = (if k \<in> set (map fst d) then map fst d else map fst d @ [k])"
  by (induction d k v rule: dict_setitem.induct) auto

lemma dict_setitem_new: "k \<notin> fst ` set d \<Longrightarrow> dict_setitem d k v = d @ [(k, v)]"
  by (induction d k v rule: dict_setitem.induct) auto

lemma keys_enumerate_py: "map fst (enumerate_py ls) = map int [0..<length ls]"
  by (simp add: enumerate_py_def)

section \<open>The keys written by the loops\<close>

lemma keys_for_landmarks:
  "distinct (map fst es) \<Longrightarrow>
   map fst (for_landmarks m es) = map fst m @ new_ids (map fst m) (map fst es)"
proof (induction es arbitrary: m)
  case Nil
  then show ?case by (simp add: new_ids_def)
next
  case (Cons e es)
  obtain k lm where e: "e = (k, lm)" by (cases e)
  from Cons.prems e have notin: "k \<notin> set (map fst es)" and d: "distinct (map fst es)" by auto
  have flt: "filter (\<lambda>j. j \<noteq> k \<and> j \<notin> fst ` set m) (map fst es) = filter (\<lambda>j. j \<notin> fst ` set m) (map fst es)"
    using notin by (intro filter_cong) auto
  show ?case using Cons.IH[OF d, of "dict_setitem m k (x lm, y lm)"] flt
    by (auto simp: e keys_dict_setitem new_ids_def)
qed

lemma distinct_keys_enumerate_py: "distinct (map fst (enumerate_py ls))"
  by (simp add: keys_enumerate_py distinct_map)

lemma keys_for_hands:
  "map fst (for_hands m hs) =
     claimed_insertion_order (map fst m) (map (\<lambda>h. map fst (enumerate_py (landmark h))) hs)"
  by (induction hs arbitrary: m) (simp_all add: keys_for_landmarks distinct_keys_enumerate_py)

lemma new_ids_upt: "new_ids (map int [0..<n]) (map int [0..<l]) = map int [n..<l]"
proof (cases "n \<le> l")
  case True
  then have split: "[0..<l] = [0..<n] @ [n..<l]"
    by (metis le_add_diff_inverse upt_add_eq_append zero_le)
  have a: "filter (\<lambda>k. k \<notin> int ` {0..<n}) (map int [0..<n]) = []"
    by (simp add: filter_empty_conv)
  have b: "filter (\<lambda>k. k \<notin> int ` {0..<n}) (map int [n..<l]) = map int [n..<l]"
    by (rule filter_True) auto
  show ?thesis unfolding new_ids_def split using a b by simp
next
  case False
  then have "filter (\<lambda>k. k \<notin> int ` {0..<n}) (map int [0..<l]) = []"
    by (auto simp add: filter_empty_conv)
  with False show ?thesis by (simp add: new_ids_def)
qed

lemma append_upt_max: "map int [0..<n] @ map int [n..<l] = map int [0..<max n l]"
proof (cases "n \<le> l")
  case True
  then have "[0..<l] = [0..<n] @ [n..<l]"
    by (metis le_add_diff_inverse upt_add_eq_append zero_le)
  with True show ?thesis by (simp add: max_def)
next
  case False
  then show ?thesis by (simp add: max_def)
qed

lemma claimed_insertion_order_upt:
  "claimed_insertion_order (map int [0..<n]) (map (\<lambda>h. map int [0..<length (landmark h)]) hs)
     = map int [0..<foldl max n (map (\<lambda>h. length (landmark h)) hs)]"
  by (induction hs arbitrary: n) (simp_all add: new_ids_upt append_upt_max)

lemma foldl_max_Max:
  "foldl max (n::nat) ls = Max (insert n (set ls))"
proof (induction ls arbitrary: n)
  case Nil then show ?case by simp
next
  case (Cons a ls)
  have "Max (insert (max n a) (set ls)) = Max (insert n (insert a (set ls)))"
    by (cases "set ls = {}") (auto simp: max.assoc)
  with Cons show ?case by simp
qed

lemma keys_for_hands_upt:
  "map fst (for_hands [] hs) = map int [0..<foldl max 0 (map (\<lambda>h. length (landmark h)) hs)]"
  using claimed_insertion_order_upt[of 0 hs] by (simp add: keys_for_hands keys_enumerate_py)

lemma max_landmarks_Max:
  "hs \<noteq> [] \<Longrightarrow> foldl max 0 (map (\<lambda>h. length (landmark h)) hs) = Max ((\<lambda>h. length (landmark h)) ` set hs)"
proof -
  assume ne: "hs \<noteq> []"
  let ?S = "(\<lambda>h. length (landmark h)) ` set hs"
  have "Max (insert 0 ?S) = max 0 (Max ?S)" using ne by (intro Max_insert) auto
  then show ?thesis by (simp add: foldl_max_Max)
qed

section \<open>The values written by the loops\<close>

lemma values_for_landmarks:
  "distinct (map fst es) \<Longrightarrow>
   map_of (for_landmarks m es) k =
     (case map_of es k of Some lm \<Rightarrow> Some (x lm, y lm) | None \<Rightarrow> map_of m k)"
proof (induction es arbitrary: m)
  case Nil
  then show ?case by simp
next
  case (Cons e es)
  obtain k' lm where e: "e = (k', lm)" by (cases e)
  from Cons.prems e have notin: "k' \<notin> fst ` set es" and d: "distinct (map fst es)" by auto
  from notin have none: "map_of es k' = None" by (simp add: map_of_eq_None_iff)
  show ?case using Cons.IH[OF d, of "dict_setitem m k' (x lm, y lm)"] none
    by (auto simp: e map_of_dict_setitem split: option.splits)
qed

lemma map_of_enumerate_py:
  "map_of (enumerate_py ls) k = (if 0 \<le> k \<and> nat k < length ls then Some (ls ! nat k) else None)"
proof (cases "0 \<le> k \<and> nat k < length ls")
  case True
  let ?ks = "map int [0..<length ls]"
  have nth: "?ks ! nat k = k" using True by simp
  have "map_of (zip ?ks ls) (?ks ! nat k) = Some (ls ! nat k)"
    using True by (intro map_of_zip_nth) (simp_all add: distinct_map)
  then have "map_of (enumerate_py ls) k = Some (ls ! nat k)"
    unfolding nth enumerate_py_def .
  with True show ?thesis by simp
next
  case False
  then have "k \<notin> set (map int [0..<length ls])" by auto
  then have "map_of (zip (map int [0..<length ls]) ls) k = None"
    by (subst map_of_zip_is_None) simp_all
  then have "map_of (enumerate_py ls) k = None"
    unfolding enumerate_py_def .
  with False show ?thesis by auto
qed

lemma values_for_hands:
  "map_of (for_hands m hs) k =
     (case last_hand_with k hs of
        Some h \<Rightarrow> Some (x (landmark h ! nat k), y (landmark h ! nat k))
      | None \<Rightarrow> map_of m k)"
proof (induction hs arbitrary: m)
  case Nil
  then show ?case by simp
next
  case (Cons h hs)
  show ?case
    by (simp add: Cons.IH values_for_landmarks distinct_keys_enumerate_py map_of_enumerate_py
        split: option.splits)
qed

lemma last_hand_with_None:
  "last_hand_with k hs = None \<longleftrightarrow> (\<forall>h \<in> set hs. \<not> (0 \<le> k \<and> nat k < length (landmark h)))"
  by (induction hs) (auto split: option.splits)

lemma last_hand_with_last:
  "j < length hs \<Longrightarrow> 0 \<le> k \<Longrightarrow> nat k < length (landmark (hs ! j)) \<Longrightarrow>
   \<forall>j'. j < j' \<and> j' < length hs \<longrightarrow> length (landmark (hs ! j')) \<le> nat k \<Longrightarrow>
   last_hand_with k hs = Some (hs ! j)"
proof (induction hs arbitrary: j)
  case Nil
  then show ?case by simp
next
  case (Cons h hs)
  show ?case
  proof (cases j)
    case 0
    have "\<forall>h' \<in> set hs. \<not> (0 \<le> k \<and> nat k < length (landmark h'))"
    proof
      fix h' assume "h' \<in> set hs"
      then obtain i where i: "i < length hs" "hs ! i = h'" by (auto simp: in_set_conv_nth)
      with Cons.prems(4) 0 have "length (landmark ((h # hs) ! Suc i)) \<le> nat k" by auto
      with i show "\<not> (0 \<le> k \<and> nat k < length (landmark h'))" by simp
    qed
    then have "last_hand_with k hs = None" by (simp add: last_hand_with_None)
    with Cons.prems 0 show ?thesis by simp
  next
    case (Suc j0)
    have later: "\<forall>j'. j0 < j' \<and> j' < length hs \<longrightarrow> length (landmark (hs ! j')) \<le> nat k"
    proof (intro allI impI)
      fix j' assume "j0 < j' \<and> j' < length hs"
      with Cons.prems(4) Suc have "length (landmark ((h # hs) ! Suc j')) \<le> nat k" by auto
      then show "length (landmark (hs ! j')) \<le> nat k" by simp
    qed
    from Cons.prems Suc have "last_hand_with k hs = Some (hs ! j0)"
      by (intro Cons.IH later) auto
    with Suc show ?thesis by simp
  qed
qed

lemma distinct_keys_for_hands: "distinct (map fst (for_hands [] hs))"
  by (simp add: keys_for_hands_upt distinct_map)

section \<open>The result of fetch_landmarks in terms of the engine's result\<close>

lemma fetch_landmarks_result:
  "process mp (hands_objs h (hand_processor self)) (ndarrays h fr) = (Inr r, eng') \<Longrightarrow>
   fst (fetch_landmarks mp self fr h) = Inr (for_hands [] (detected_hands r))"
  by (auto simp: fetch_landmarks_def py_not_def detected_hands_def Let_def split: option.splits)

lemma fetch_landmarks_error:
  "process mp (hands_objs h (hand_processor self)) (ndarrays h fr) = (Inl e, eng') \<Longrightarrow>
   fst (fetch_landmarks mp self fr h) = Inl e"
  by (simp add: fetch_landmarks_def)

lemma fetch_landmarks_state:
  "snd (fetch_landmarks mp self fr h) =
     (self, h\<lparr>hands_objs := (hands_objs h)(hand_processor self :=
                 snd (process mp (hands_objs h (hand_processor self)) (ndarrays h fr)))\<rparr>)"
  by (auto simp: fetch_landmarks_def Let_def split: prod.splits sum.splits)

lemma distinct_keys_fetch_landmarks:
  "fst (fetch_landmarks mp self fr h) = Inr m \<Longrightarrow> distinct (map fst m)"
  by (auto simp: fetch_landmarks_def Let_def distinct_keys_for_hands
      split: prod.splits sum.splits if_splits)

lemma count_list_distinct: "distinct ks \<Longrightarrow> k \<in> set ks \<Longrightarrow> count_list ks k = 1"
  by (induction ks) auto

section \<open>One hand, and the coordinates that matter\<close>

lemma for_landmarks_fresh:
  "distinct (map fst es) \<Longrightarrow> fst ` set es \<inter> fst ` set m = {} \<Longrightarrow>
   for_landmarks m es = m @ map (\<lambda>(k, lm). (k, (x lm, y lm))) es"
proof (induction es arbitrary: m)
  case Nil
  then show ?case by simp
next
  case (Cons e es)
  obtain k lm where e: "e = (k, lm)" by (cases e)
  from Cons.prems e have fresh: "k \<notin> fst ` set m" and d: "distinct (map fst es)"
    and notin: "k \<notin> fst ` set es" and disj: "fst ` set es \<inter> fst ` set m = {}"
    by auto
  have "fst ` set es \<inter> fst ` set (m @ [(k, (x lm, y lm))]) = {}"
    using notin disj by auto
  from Cons.IH [OF d this] fresh show ?case
    by (simp add: e dict_setitem_new)
qed

lemma for_hands_single:
  "for_hands [] [hand] = map (\<lambda>(k, lm). (k, (x lm, y lm))) (enumerate_py (landmark hand))"
  by (simp add: for_landmarks_fresh distinct_keys_enumerate_py)

lemma nth_for_hands_single:
  "i < length (landmark hand) \<Longrightarrow>
   for_hands [] [hand] ! i = (int i, (x (landmark hand ! i), y (landmark hand ! i)))"
  by (subst for_hands_single) (simp add: enumerate_py_def)

lemma length_for_hands_single: "length (for_hands [] [hand]) = length (landmark hand)"
  by (subst for_hands_single) (simp add: enumerate_py_def)

lemma set_keys_upt: "set (map int [0..<n]) = {0..<int n}"
proof -
  have "int ` {0..<n} = {int 0..<int n}" by (rule image_int_atLeastLessThan)
  then show ?thesis by simp
qed

lemma for_landmarks_fold:
  "for_landmarks m es =
     fold (\<lambda>e d. dict_setitem d (fst e) (snd e)) (map (\<lambda>e. (fst e, (x (snd e), y (snd e)))) es) m"
  by (induction m es rule: for_landmarks.induct) simp_all

lemma enumerate_py_xy:
  "map (\<lambda>e. (fst e, (x (snd e), y (snd e)))) (enumerate_py ls) =
     zip (map int [0..<length (map (\<lambda>lm. (x lm, y lm)) ls)]) (map (\<lambda>lm. (x lm, y lm)) ls)"
  by (simp add: enumerate_py_def zip_map2 case_prod_beta)

lemma for_landmarks_xy:
  assumes "map (\<lambda>lm. (x lm, y lm)) ls = map (\<lambda>lm. (x lm, y lm)) ls'"
  shows "for_landmarks m (enumerate_py ls) = for_landmarks m (enumerate_py ls')"
  unfolding for_landmarks_fold enumerate_py_xy assms ..

lemma for_hands_xy:
  "map (\<lambda>hand. map (\<lambda>lm. (x lm, y lm)) (landmark hand)) hs
     = map (\<lambda>hand. map (\<lambda>lm. (x lm, y lm)) (landmark hand)) hs' \<Longrightarrow>
   for_hands m hs = for_hands m hs'"
proof (induction hs arbitrary: hs' m)
  case Nil
  then show ?case by simp
next
  case (Cons a hs)
  then obtain a' t where hs': "hs' = a' # t" by (cases hs') auto
  with Cons.prems have hd: "map (\<lambda>lm. (x lm, y lm)) (landmark a) = map (\<lambda>lm. (x lm, y lm)) (landmark a')"
    and tl: "map (\<lambda>hand. map (\<lambda>lm. (x lm, y lm)) (landmark hand)) hs
     = map (\<lambda>hand. map (\<lambda>lm. (x lm, y lm)) (landmark hand)) t"
    by auto
  show ?case
    using Cons.IH [OF tl] for_landmarks_xy [OF hd] by (simp add: hs')
qed

section \<open>Results and states of the methods\<close>

lemma fetch_landmarks_fst:
  "fst (fetch_landmarks mp self fr h) =
     (case fst (process mp (hands_objs h (hand_processor self)) (ndarrays h fr)) of
        Inl e \<Rightarrow> Inl e
      | Inr r \<Rightarrow> Inr (for_hands [] (detected_hands r)))"
proof (cases "process mp (hands_objs h (hand_processor self)) (ndarrays h fr)")
  case (Pair outcome eng')
  show ?thesis
  proof (cases outcome)
    case (Inl e)
    with Pair show ?thesis by (simp add: fetch_landmarks_error)
  next
    case (Inr r)
    with Pair show ?thesis by (simp add: fetch_landmarks_result)
  qed
qed

lemma fetch_landmark_position_state:
  "snd (fetch_landmark_position mp self fr landmark_id h) = snd (fetch_landmarks mp self fr h)"
  by (simp add: fetch_landmark_position_def split: prod.splits sum.splits)

section \<open>The claims\<close>

subsection \<open>C1: last hand wins on a shared landmark ID\<close>

text \<open>
  Claim C1. When the engine detects two or more hands, a landmark ID \<open>k\<close> that occurs in
  more than one hand (here in the hands at positions \<open>i < j\<close>, where \<open>j\<close> is the last
  hand that has it) is exactly once a key of the map returned by \<open>fetch_landmarks\<close>, and
  its value is the pair \<open>(x, y)\<close> of landmark \<open>k\<close> of the later hand \<open>j\<close>.
\<close>

theorem fetch_landmarks_last_hand_wins:
  assumes "process mp (hands_objs h (hand_processor self)) (ndarrays h rgb_frame) = (Inr r, eng')"
    and "multi_hand_landmarks r = Some hands"
    and "i < j" and "j < length hands"
    and "0 \<le> k"
    and "nat k < length (landmark (hands ! i))"
    and "nat k < length (landmark (hands ! j))"
    and "\<forall>j'. j < j' \<and> j' < length hands \<longrightarrow> length (landmark (hands ! j')) \<le> nat k"
  shows "\<exists>m. fst (fetch_landmarks mp self rgb_frame h) = Inr m
           \<and> count_list (dict_keys m) k = 1
           \<and> dict_get m k = Some (x (landmark (hands ! j) ! nat k), y (landmark (hands ! j) ! nat k))"
proof -
  let ?m = "for_hands [] hands"
  from assms(2) have dh: "detected_hands r = hands" by (simp add: detected_hands_def)
  have res: "fst (fetch_landmarks mp self rgb_frame h) = Inr ?m"
    using fetch_landmarks_result [OF assms(1)] dh by simp
  have win: "last_hand_with k hands = Some (hands ! j)"
    using assms(4,5,7,8) by (rule last_hand_with_last)
  have val: "map_of ?m k = Some (x (landmark (hands ! j) ! nat k), y (landmark (hands ! j) ! nat k))"
    by (simp add: values_for_hands win)
  then have "k \<in> set (map fst ?m)"
    by (metis map_of_eq_None_iff option.distinct(1) set_map)
  then have "count_list (map fst ?m) k = 1"
    using distinct_keys_for_hands [of hands] by (simp add: count_list_distinct)
  with res val show ?thesis by (simp add: dict_keys_def dict_get_def)
qed

text \<open>
  A run on three hands of 2, 3 and 1 landmarks: ID 1 occurs in the first two hands and
  gets the value of the second.
\<close>

theorem fetch_landmarks_last_hand_wins_witness:
  "fst (process stub_mp (hands_objs stub_heap (hand_processor stub_self)) (ndarrays stub_heap 3))
     = Inr \<lparr>multi_hand_landmarks = Some [hand_b, hand_a, hand_c]\<rparr>
   \<and> nat 1 < length (landmark ([hand_b, hand_a, hand_c] ! 0))
   \<and> nat 1 < length (landmark ([hand_b, hand_a, hand_c] ! 1))
   \<and> length (landmark ([hand_b, hand_a, hand_c] ! 2)) \<le> nat 1
   \<and> (\<exists>m. fst (fetch_landmarks stub_mp stub_self 3 stub_heap) = Inr m
         \<and> count_list (dict_keys m) 1 = 1
         \<and> dict_get m 1 = Some (x (landmark hand_a ! 1), y (landmark hand_a ! 1)))
   \<and> (x (landmark hand_a ! 1), y (landmark hand_a ! 1)) = (3/10, 4/10)"
proof -
  let ?hs = "[hand_b, hand_a, hand_c]"
  have p: "process stub_mp (hands_objs stub_heap (hand_processor stub_self)) (ndarrays stub_heap 3)
      = (Inr \<lparr>multi_hand_landmarks = Some ?hs\<rparr>, Suc 0)"
    by (simp add: stub_mp_def stub_self_def stub_heap_def stub_results_def)
  have later: "\<forall>j'. 1 < j' \<and> j' < length ?hs \<longrightarrow> length (landmark (?hs ! j')) \<le> nat 1"
  proof (intro allI impI)
    fix j' :: nat assume "1 < j' \<and> j' < length ?hs"
    then have "j' = 2" by simp
    then show "length (landmark (?hs ! j')) \<le> nat 1" by (simp add: hand_c_def)
  qed
  have a: "nat 1 < length (landmark (?hs ! 0))" by (simp add: hand_b_def)
  have b: "nat 1 < length (landmark (?hs ! 1))" by (simp add: hand_a_def)
  have c: "length (landmark (?hs ! 2)) \<le> nat 1" by (simp add: hand_c_def)
  have "\<exists>m. fst (fetch_landmarks stub_mp stub_self 3 stub_heap) = Inr m
         \<and> count_list (dict_keys m) 1 = 1
         \<and> dict_get m 1 = Some (x (landmark (?hs ! 1) ! nat 1), y (landmark (?hs ! 1) ! nat 1))"
    by (rule fetch_landmarks_last_hand_wins [OF p _ _ _ _ a b later]) simp_all
  then have d: "\<exists>m. fst (fetch_landmarks stub_mp stub_self 3 stub_heap) = Inr m
         \<and> count_list (dict_keys m) 1 = 1
         \<and> dict_get m 1 = Some (x (landmark hand_a ! 1), y (landmark hand_a ! 1))"
    by simp
  have e: "(x (landmark hand_a ! 1), y (landmark hand_a ! 1)) = (3/10, 4/10)"
    by (simp add: hand_a_def)
  from p a b c d e show ?thesis by simp
qed

subsection \<open>C2: fetch_landmark_position is a lookup in the map of fetch_landmarks\<close>

text \<open>
  Claim C2. For every frame and every integer \<open>landmark_id\<close>, \<open>fetch_landmark_position\<close>
  returns what \<open>get(landmark_id)\<close> returns on the map of \<open>fetch_landmarks\<close> for the same
  frame (and leaves the same state behind): the pair stored under the ID when the ID is a
  key, and \<open>None\<close>, a value and not an exception, when it is not. An exception of the
  engine is the only error, and it is that of \<open>fetch_landmarks\<close>.
\<close>

theorem fetch_landmark_position_is_get:
  "fetch_landmark_position mp self rgb_frame landmark_id h =
     (case fetch_landmarks mp self rgb_frame h of
        (res, st) \<Rightarrow> (map_sum (\<lambda>e. e) (\<lambda>m. dict_get m landmark_id) res, st))
   \<and> (\<forall>m. fst (fetch_landmarks mp self rgb_frame h) = Inr m \<longrightarrow>
         fst (fetch_landmark_position mp self rgb_frame landmark_id h) = Inr (dict_get m landmark_id)
         \<and> (landmark_id \<notin> set (dict_keys m) \<longrightarrow> dict_get m landmark_id = None)
         \<and> (\<forall>v. (landmark_id, v) \<in> set m \<longrightarrow> dict_get m landmark_id = Some v))"
proof (intro conjI allI impI)
  show "fetch_landmark_position mp self rgb_frame landmark_id h =
     (case fetch_landmarks mp self rgb_frame h of
        (res, st) \<Rightarrow> (map_sum (\<lambda>e. e) (\<lambda>m. dict_get m landmark_id) res, st))"
    by (simp add: fetch_landmark_position_def split: prod.splits sum.splits)
next
  fix m assume "fst (fetch_landmarks mp self rgb_frame h) = Inr m"
  then show "fst (fetch_landmark_position mp self rgb_frame landmark_id h) = Inr (dict_get m landmark_id)"
    by (auto simp: fetch_landmark_position_def split: prod.splits sum.splits)
next
  fix m assume "landmark_id \<notin> set (dict_keys m)"
  then show "dict_get m landmark_id = None"
    by (simp add: dict_get_def dict_keys_def map_of_eq_None_iff)
next
  fix m v assume m: "fst (fetch_landmarks mp self rgb_frame h) = Inr m"
    and v: "(landmark_id, v) \<in> set m"
  from m have "distinct (map fst m)" by (rule distinct_keys_fetch_landmarks)
  with v show "dict_get m landmark_id = Some v" by (simp add: dict_get_def)
qed

text \<open>
  A run on two hands: ID 1 is found, IDs 21 and -1 are absent; on a frame that the engine
  rejects, both methods raise the engine's exception.
\<close>

theorem fetch_landmark_position_is_get_witness:
  "fst (fetch_landmarks stub_mp stub_self 2 stub_heap)
     = Inr [(0, (7/10, 8/10)), (1, (9/10, 1)), (2, (5/10, 6/10))]
   \<and> fst (fetch_landmark_position stub_mp stub_self 2 1 stub_heap) = Inr (Some (9/10, 1))
   \<and> fst (fetch_landmark_position stub_mp stub_self 2 21 stub_heap) = Inr None
   \<and> fst (fetch_landmark_position stub_mp stub_self 2 (-1) stub_heap) = Inr None
   \<and> fst (fetch_landmarks stub_mp stub_self 9 stub_heap) = Inl RuntimeError
   \<and> fetch_landmark_position stub_mp stub_self 9 1 stub_heap =
       (Inl RuntimeError, snd (fetch_landmarks stub_mp stub_self 9 stub_heap))"
proof -
  let ?m = "[(0, (7/10, 8/10)), (1, (9/10, 1)), (2, (5/10, 6/10))] :: (int, real \<times> real) dict"
  have f: "fst (fetch_landmarks stub_mp stub_self 2 stub_heap) = Inr ?m"
    by (simp add: fetch_landmarks_def stub_mp_def stub_self_def stub_heap_def stub_results_def
        py_not_def hand_a_def hand_b_def enumerate_py_def)
  have g: "fst (fetch_landmarks stub_mp stub_self 9 stub_heap) = Inl RuntimeError"
    by (simp add: fetch_landmarks_def stub_mp_def stub_self_def stub_heap_def stub_results_def)
  have a: "fst (fetch_landmark_position stub_mp stub_self 2 1 stub_heap) = Inr (Some (9/10, 1))"
  proof -
    have "fst (fetch_landmark_position stub_mp stub_self 2 1 stub_heap) = Inr (dict_get ?m 1)"
      using fetch_landmark_position_is_get [of stub_mp stub_self 2 1 stub_heap] f by blast
    then show ?thesis by (simp add: dict_get_def)
  qed
  have b: "fst (fetch_landmark_position stub_mp stub_self 2 21 stub_heap) = Inr None"
  proof -
    have "fst (fetch_landmark_position stub_mp stub_self 2 21 stub_heap) = Inr (dict_get ?m 21)"
      using fetch_landmark_position_is_get [of stub_mp stub_self 2 21 stub_heap] f by blast
    then show ?thesis by (simp add: dict_get_def)
  qed
  have c: "fst (fetch_landmark_position stub_mp stub_self 2 (-1) stub_heap) = Inr None"
  proof -
    have "fst (fetch_landmark_position stub_mp stub_self 2 (-1) stub_heap) = Inr (dict_get ?m (-1))"
      using fetch_landmark_position_is_get [of stub_mp stub_self 2 "-1" stub_heap] f by blast
    then show ?thesis by (simp add: dict_get_def)
  qed
  have d: "fetch_landmark_position stub_mp stub_self 9 1 stub_heap =
       (Inl RuntimeError, snd (fetch_landmarks stub_mp stub_self 9 stub_heap))"
    using fetch_landmark_position_is_get [of stub_mp stub_self 9 1 stub_heap] g
    by (simp split: prod.splits)
  from f g a b c d show ?thesis by simp
qed

subsection \<open>C3: one hand with N landmarks\<close>

text \<open>
  Claim C3, as amended. When the engine detects exactly one hand with \<open>N\<close> landmarks,
  the map returned by \<open>fetch_landmarks\<close> has exactly \<open>N\<close> entries, its keys are the
  integers 0 to \<open>N - 1\<close> (in this order), and the value of key \<open>i\<close> is the pair
  \<open>(x, y)\<close> of the engine's landmark \<open>i\<close>; the values lie in the unit square provided
  the coordinates that the engine reports do.
\<close>

theorem fetch_landmarks_one_hand:
  assumes "process mp (hands_objs h (hand_processor self)) (ndarrays h rgb_frame) = (Inr r, eng')"
    and "multi_hand_landmarks r = Some [hand]"
  shows "\<exists>m. fst (fetch_landmarks mp self rgb_frame h) = Inr m
           \<and> length m = length (landmark hand)
           \<and> dict_keys m = map int [0..<length (landmark hand)]
           \<and> (\<forall>i<length (landmark hand).
                 m ! i = (int i, (x (landmark hand ! i), y (landmark hand ! i))))
           \<and> ((\<forall>lm \<in> set (landmark hand). unit_square (x lm, y lm))
                 \<longrightarrow> (\<forall>p \<in> set m. unit_square (snd p)))"
proof -
  let ?m = "for_hands [] [hand]"
  from assms(2) have dh: "detected_hands r = [hand]" by (simp add: detected_hands_def)
  have res: "fst (fetch_landmarks mp self rgb_frame h) = Inr ?m"
    using fetch_landmarks_result [OF assms(1)] dh by simp
  have keys: "dict_keys ?m = map int [0..<length (landmark hand)]"
    using keys_for_hands_upt [of "[hand]"] by (simp add: dict_keys_def)
  have nth: "\<forall>i<length (landmark hand).
      ?m ! i = (int i, (x (landmark hand ! i), y (landmark hand ! i)))"
    using nth_for_hands_single [of _ hand] by blast
  have sq: "(\<forall>lm \<in> set (landmark hand). unit_square (x lm, y lm))
      \<longrightarrow> (\<forall>p \<in> set ?m. unit_square (snd p))"
  proof (intro impI ballI)
    fix p assume a: "\<forall>lm \<in> set (landmark hand). unit_square (x lm, y lm)" and p: "p \<in> set ?m"
    from p obtain i where i: "i < length ?m" "?m ! i = p" by (auto simp: in_set_conv_nth)
    then have il: "i < length (landmark hand)"
      using length_for_hands_single [of hand] by simp
    then have "landmark hand ! i \<in> set (landmark hand)" by simp
    with a have sq: "unit_square (x (landmark hand ! i), y (landmark hand ! i))" by blast
    from nth il have "snd (?m ! i) = (x (landmark hand ! i), y (landmark hand ! i))" by simp
    with sq i(2) show "unit_square (snd p)" by simp
  qed
  from res keys nth sq length_for_hands_single [of hand] show ?thesis by blast
qed

text \<open>
  A run on one hand of three landmarks, all inside the image.
\<close>

theorem fetch_landmarks_one_hand_witness:
  "fst (process stub_mp (hands_objs stub_heap (hand_processor stub_self)) (ndarrays stub_heap 1))
     = Inr \<lparr>multi_hand_landmarks = Some [hand_a]\<rparr>
   \<and> length (landmark hand_a) = 3
   \<and> (\<exists>m. fst (fetch_landmarks stub_mp stub_self 1 stub_heap) = Inr m
         \<and> length m = 3 \<and> dict_keys m = [0, 1, 2]
         \<and> m ! 0 = (0, (1/10, 2/10)) \<and> m ! 1 = (1, (3/10, 4/10)) \<and> m ! 2 = (2, (5/10, 6/10))
         \<and> unit_square (snd (m ! 0)) \<and> unit_square (snd (m ! 1)) \<and> unit_square (snd (m ! 2)))"
proof -
  have p: "process stub_mp (hands_objs stub_heap (hand_processor stub_self)) (ndarrays stub_heap 1)
      = (Inr \<lparr>multi_hand_landmarks = Some [hand_a]\<rparr>, Suc 0)"
    by (simp add: stub_mp_def stub_self_def stub_heap_def stub_results_def)
  have len: "length (landmark hand_a) = 3" by (simp add: hand_a_def)
  have inside: "\<forall>lm \<in> set (landmark hand_a). unit_square (x lm, y lm)"
    by (simp add: hand_a_def unit_square_def)
  obtain m where m: "fst (fetch_landmarks stub_mp stub_self 1 stub_heap) = Inr m"
    "length m = length (landmark hand_a)"
    "dict_keys m = map int [0..<length (landmark hand_a)]"
    "\<forall>i<length (landmark hand_a).
       m ! i = (int i, (x (landmark hand_a ! i), y (landmark hand_a ! i)))"
    "(\<forall>lm \<in> set (landmark hand_a). unit_square (x lm, y lm))
       \<longrightarrow> (\<forall>p \<in> set m. unit_square (snd p))"
    using fetch_landmarks_one_hand [OF p, of hand_a] by auto
  from m(5) inside have all: "\<forall>p \<in> set m. unit_square (snd p)" by blast
  have k: "dict_keys m = [0, 1, 2]" using m(3) len by (simp add: upt_rec)
  have e0: "m ! 0 = (0, (1/10, 2/10))" using m(4) len by (simp add: hand_a_def)
  have e1: "m ! 1 = (1, (3/10, 4/10))" using m(4) len by (simp add: hand_a_def)
  have e2: "m ! 2 = (2, (5/10, 6/10))"
  proof -
    from m(4) len have "m ! 2 = (int 2, (x (landmark hand_a ! 2), y (landmark hand_a ! 2)))"
      by simp
    then show ?thesis by (simp add: hand_a_def)
  qed
  have s: "unit_square (snd (m ! 0))" "unit_square (snd (m ! 1))" "unit_square (snd (m ! 2))"
    using all m(2) len by simp_all
  from p len m(1) m(2) k e0 e1 e2 s show ?thesis by auto
qed

text \<open>
  Claim C3 as stated, that every value has both coordinates between 0 and 1, fails on a
  hand that the engine places partly outside the image: \<open>fetch_landmarks\<close> copies the
  coordinates 3/2 and -1/4 as they are.
\<close>

theorem fetch_landmarks_one_hand_outside:
  "fst (process stub_mp (hands_objs stub_heap (hand_processor stub_self)) (ndarrays stub_heap 5))
     = Inr \<lparr>multi_hand_landmarks = Some [hand_out]\<rparr>
   \<and> length (landmark hand_out) = 2
   \<and> fst (fetch_landmarks stub_mp stub_self 5 stub_heap)
       = Inr [(0, (3/2, 1/2)), (1, (-1/4, 1/4))]
   \<and> \<not> unit_square (3/2, 1/2) \<and> \<not> unit_square (-1/4, 1/4)"
  by (simp add: fetch_landmarks_def stub_mp_def stub_self_def stub_heap_def stub_results_def
      py_not_def hand_out_def enumerate_py_def unit_square_def)

subsection \<open>C4: no hands, empty map\<close>

text \<open>
  Claim C4. When the engine detects no hand, that is, its list of hands is absent
  (\<open>None\<close>) or empty, \<open>fetch_landmarks\<close> returns the empty map.
\<close>

theorem fetch_landmarks_no_hands:
  assumes "process mp (hands_objs h (hand_processor self)) (ndarrays h rgb_frame) = (Inr r, eng')"
    and "multi_hand_landmarks r = None \<or> multi_hand_landmarks r = Some []"
  shows "fst (fetch_landmarks mp self rgb_frame h) = Inr []"
  using assms by (auto simp: fetch_landmarks_def py_not_def)

text \<open>Runs on a frame with an absent list and on a frame with an empty list.\<close>

theorem fetch_landmarks_no_hands_witness:
  "fst (process stub_mp (hands_objs stub_heap (hand_processor stub_self)) (ndarrays stub_heap 0))
     = Inr \<lparr>multi_hand_landmarks = None\<rparr>
   \<and> fst (fetch_landmarks stub_mp stub_self 0 stub_heap) = Inr []
   \<and> fst (process stub_mp (hands_objs stub_heap (hand_processor stub_self)) (ndarrays stub_heap 4))
     = Inr \<lparr>multi_hand_landmarks = Some []\<rparr>
   \<and> fst (fetch_landmarks stub_mp stub_self 4 stub_heap) = Inr []"
proof -
  have p0: "process stub_mp (hands_objs stub_heap (hand_processor stub_self)) (ndarrays stub_heap 0)
      = (Inr \<lparr>multi_hand_landmarks = None\<rparr>, Suc 0)"
    by (simp add: stub_mp_def stub_self_def stub_heap_def stub_results_def)
  have p4: "process stub_mp (hands_objs stub_heap (hand_processor stub_self)) (ndarrays stub_heap 4)
      = (Inr \<lparr>multi_hand_landmarks = Some []\<rparr>, Suc 0)"
    by (simp add: stub_mp_def stub_self_def stub_heap_def stub_results_def)
  have a: "fst (fetch_landmarks stub_mp stub_self 0 stub_heap) = Inr []"
    by (rule fetch_landmarks_no_hands [OF p0]) simp
  have b: "fst (fetch_landmarks stub_mp stub_self 4 stub_heap) = Inr []"
    by (rule fetch_landmarks_no_hands [OF p4]) simp
  from a b p0 p4 show ?thesis by simp
qed

subsection \<open>C5: two calls on the same image give equal maps\<close>

text \<open>
  Claim C5. Let the result of the engine's \<open>process\<close> depend on the frame only, not on
  the engine's internal state. For a detector constructed with the arguments 2, 0.5
  and 0.5, two successive calls of \<open>fetch_landmarks\<close> on the same frame return equal
  results; the detector's attribute and the frame are the same in both calls.
\<close>

theorem fetch_landmarks_deterministic:
  assumes "\<forall>s s' f. fst (process mp s f) = fst (process mp s' f)"
    and "init mp 2 0.5 0.5 h0 = (Inr self, h1)"
    and "fetch_landmarks mp self rgb_frame h1 = (res1, self1, h2)"
    and "fetch_landmarks mp self1 rgb_frame h2 = (res2, self2, h3)"
  shows "res1 = res2 \<and> self1 = self \<and> self2 = self
           \<and> ndarrays h2 rgb_frame = ndarrays h1 rgb_frame"
proof -
  from assms(3) have st: "snd (fetch_landmarks mp self rgb_frame h1) = (self1, h2)" by simp
  then have s1: "self1 = self" and fr: "ndarrays h2 = ndarrays h1"
    by (auto simp: fetch_landmarks_state)
  from assms(4) have "snd (fetch_landmarks mp self1 rgb_frame h2) = (self2, h3)" by simp
  then have s2: "self2 = self" using s1 by (simp add: fetch_landmarks_state)
  have same: "fst (process mp (hands_objs h2 (hand_processor self)) (ndarrays h2 rgb_frame))
      = fst (process mp (hands_objs h1 (hand_processor self)) (ndarrays h1 rgb_frame))"
    using assms(1) fr by simp
  have "res2 = fst (fetch_landmarks mp self rgb_frame h2)" using assms(4) s1 by simp
  also have "\<dots> = fst (fetch_landmarks mp self rgb_frame h1)"
    by (simp only: fetch_landmarks_fst same)
  also have "\<dots> = res1" using assms(3) by simp
  finally show ?thesis using s1 s2 fr by simp
qed

text \<open>
  A run with the test double, whose result depends on the frame only while its internal
  state counts the calls: the two maps are equal although the engine's state moved on.
\<close>

theorem fetch_landmarks_deterministic_witness:
  "fst (init stub_mp 2 0.5 0.5 stub_heap) = Inr \<lparr>hand_processor = 10\<rparr>
   \<and> fst (fetch_landmarks stub_mp \<lparr>hand_processor = 10\<rparr> 2 (snd (init stub_mp 2 0.5 0.5 stub_heap)))
       = Inr [(0, (7/10, 8/10)), (1, (9/10, 1)), (2, (5/10, 6/10))]
   \<and> fst (fetch_landmarks stub_mp \<lparr>hand_processor = 10\<rparr> 2
           (snd (snd (fetch_landmarks stub_mp \<lparr>hand_processor = 10\<rparr> 2
                        (snd (init stub_mp 2 0.5 0.5 stub_heap))))))
       = fst (fetch_landmarks stub_mp \<lparr>hand_processor = 10\<rparr> 2 (snd (init stub_mp 2 0.5 0.5 stub_heap)))
   \<and> hands_objs (snd (init stub_mp 2 0.5 0.5 stub_heap)) 10 = 0
   \<and> hands_objs (snd (snd (fetch_landmarks stub_mp \<lparr>hand_processor = 10\<rparr> 2
                        (snd (init stub_mp 2 0.5 0.5 stub_heap))))) 10 = 1"
proof -
  let ?d = "\<lparr>hand_processor = 10\<rparr>"
  let ?h1 = "snd (init stub_mp 2 0.5 0.5 stub_heap)"
  let ?c1 = "fetch_landmarks stub_mp ?d 2 ?h1"
  let ?h2 = "snd (snd ?c1)"
  let ?c2 = "fetch_landmarks stub_mp (fst (snd ?c1)) 2 ?h2"
  have pure: "\<forall>s s' f. fst (process stub_mp s f) = fst (process stub_mp s' f)"
    by (simp add: stub_mp_def)
  have i: "init stub_mp 2 0.5 0.5 stub_heap = (Inr ?d, ?h1)"
    by (simp add: init_def stub_mp_def stub_heap_def)
  have c1: "?c1 = (fst ?c1, fst (snd ?c1), ?h2)" by simp
  have c2: "?c2 = (fst ?c2, fst (snd ?c2), snd (snd ?c2))" by simp
  from fetch_landmarks_deterministic [OF pure i c1 c2]
  have eq: "fst ?c1 = fst ?c2" and d: "fst (snd ?c1) = ?d" by simp_all
  have r1: "fst ?c1 = Inr [(0, (7/10, 8/10)), (1, (9/10, 1)), (2, (5/10, 6/10))]"
    by (simp add: fetch_landmarks_def init_def stub_mp_def stub_heap_def stub_results_def
        py_not_def hand_a_def hand_b_def enumerate_py_def)
  have e0: "hands_objs ?h1 10 = 0"
    by (simp add: init_def stub_mp_def stub_heap_def)
  have e1: "hands_objs ?h2 10 = 1"
    by (simp add: fetch_landmarks_state init_def stub_mp_def stub_heap_def)
  have i': "fst (init stub_mp 2 0.5 0.5 stub_heap) = Inr ?d"
    by (simp add: init_def stub_mp_def stub_heap_def)
  from eq d have eq': "fst (fetch_landmarks stub_mp ?d 2 ?h2) = fst ?c1" by simp
  from i' r1 eq' e0 e1 show ?thesis by blast
qed

subsection \<open>C6: insertion order of the keys\<close>

text \<open>
  Claim C6. For every engine result, the keys of the map returned by \<open>fetch_landmarks\<close>
  stand in the order of their first insertion: the IDs of the first hand in enumeration
  order, followed by the IDs newly introduced by each later hand; writing to a key that
  is already present leaves the order of the keys as it is.
\<close>

theorem fetch_landmarks_insertion_order:
  assumes "process mp (hands_objs h (hand_processor self)) (ndarrays h rgb_frame) = (Inr r, eng')"
  shows "\<exists>m. fst (fetch_landmarks mp self rgb_frame h) = Inr m
           \<and> dict_keys m = claimed_insertion_order []
                 (map (\<lambda>hand. map fst (enumerate_py (landmark hand))) (detected_hands r))
           \<and> (\<forall>d k v. k \<in> set (dict_keys d) \<longrightarrow>
                 dict_keys (dict_setitem (d :: (int, real \<times> real) dict) k v) = dict_keys d)"
proof -
  let ?m = "for_hands [] (detected_hands r)"
  have res: "fst (fetch_landmarks mp self rgb_frame h) = Inr ?m"
    using assms by (rule fetch_landmarks_result)
  have keys: "dict_keys ?m = claimed_insertion_order []
      (map (\<lambda>hand. map fst (enumerate_py (landmark hand))) (detected_hands r))"
    using keys_for_hands [of "[]" "detected_hands r"] by (simp add: dict_keys_def)
  have over: "\<forall>d k v. k \<in> set (dict_keys d) \<longrightarrow>
      dict_keys (dict_setitem (d :: (int, real \<times> real) dict) k v) = dict_keys d"
    by (simp add: dict_keys_def keys_dict_setitem)
  from res keys over show ?thesis by blast
qed

text \<open>
  A run on three hands of 2, 3 and 1 landmarks, and an overwrite of key 0.
\<close>

theorem fetch_landmarks_insertion_order_witness:
  "fst (process stub_mp (hands_objs stub_heap (hand_processor stub_self)) (ndarrays stub_heap 3))
     = Inr \<lparr>multi_hand_landmarks = Some [hand_b, hand_a, hand_c]\<rparr>
   \<and> map (\<lambda>hand. map fst (enumerate_py (landmark hand))) [hand_b, hand_a, hand_c]
       = [[0, 1], [0, 1, 2], [0]]
   \<and> claimed_insertion_order [] [[0, 1], [0, 1, 2], [0]] = [0, 1, 2]
   \<and> (\<exists>m. fst (fetch_landmarks stub_mp stub_self 3 stub_heap) = Inr m
         \<and> dict_keys m = [0, 1, 2])
   \<and> dict_keys (dict_setitem ([(0, (7/10, 8/10)), (1, (9/10, 1))] :: (int, real \<times> real) dict)
         0 (1/10, 2/10)) = [0, 1]"
proof -
  let ?r = "\<lparr>multi_hand_landmarks = Some [hand_b, hand_a, hand_c]\<rparr>"
  have p: "process stub_mp (hands_objs stub_heap (hand_processor stub_self)) (ndarrays stub_heap 3)
      = (Inr ?r, Suc 0)"
    by (simp add: stub_mp_def stub_self_def stub_heap_def stub_results_def)
  have ids: "map (\<lambda>hand. map fst (enumerate_py (landmark hand))) [hand_b, hand_a, hand_c]
       = [[0, 1], [0, 1, 2], [0]]"
    by (simp add: enumerate_py_def hand_a_def hand_b_def hand_c_def)
  have ord: "claimed_insertion_order [] [[0, 1], [0, 1, 2], [0]] = [0, 1, 2]"
    by (simp add: new_ids_def)
  obtain m where m: "fst (fetch_landmarks stub_mp stub_self 3 stub_heap) = Inr m"
    "dict_keys m = claimed_insertion_order []
       (map (\<lambda>hand. map fst (enumerate_py (landmark hand))) (detected_hands ?r))"
    and over: "\<forall>d k v. k \<in> set (dict_keys d) \<longrightarrow>
       dict_keys (dict_setitem (d :: (int, real \<times> real) dict) k v) = dict_keys d"
    using fetch_landmarks_insertion_order [OF p] by blast
  have dh: "detected_hands ?r = [hand_b, hand_a, hand_c]" by (simp add: detected_hands_def)
  have k: "dict_keys m = [0, 1, 2]" using m(2) unfolding dh ids ord .
  let ?d = "[(0, (7/10, 8/10)), (1, (9/10, 1))] :: (int, real \<times> real) dict"
  have "0 \<in> set (dict_keys ?d)" by (simp add: dict_keys_def)
  with over have "dict_keys (dict_setitem ?d 0 (1/10, 2/10)) = dict_keys ?d" by blast
  then have o: "dict_keys (dict_setitem ?d 0 (1/10, 2/10)) = [0, 1]"
    by (simp add: dict_keys_def)
  from p have p': "fst (process stub_mp (hands_objs stub_heap (hand_processor stub_self))
      (ndarrays stub_heap 3)) = Inr ?r" by simp
  from p' ids ord m(1) k o show ?thesis by blast
qed

subsection \<open>C7: no validation, errors are the engine's\<close>

text \<open>
  Claim C7. The constructor passes its three arguments, whatever their values, to the
  engine's constructor: it fails exactly when the engine's constructor fails, with the
  same exception and the store untouched, and otherwise holds the engine that the
  constructor returned. \<open>fetch_landmarks\<close> fails exactly when the engine's \<open>process\<close>
  fails, with the same exception, and the engine is left in the state after this one
  call of \<open>process\<close>: nothing is caught, translated or retried.
\<close>

theorem errors_delegated_to_engine:
  "fst (init mp max_num_hands min_detection_confidence min_tracking_confidence h) =
     (case Hands mp max_num_hands min_detection_confidence min_tracking_confidence of
        Inl e \<Rightarrow> Inl e
      | Inr eng \<Rightarrow> Inr \<lparr>hand_processor = next_ref h\<rparr>)
   \<and> (\<forall>eng. Hands mp max_num_hands min_detection_confidence min_tracking_confidence = Inr eng \<longrightarrow>
         hands_objs (snd (init mp max_num_hands min_detection_confidence min_tracking_confidence h))
           (next_ref h) = eng)
   \<and> (\<forall>e. Hands mp max_num_hands min_detection_confidence min_tracking_confidence = Inl e \<longrightarrow>
         init mp max_num_hands min_detection_confidence min_tracking_confidence h = (Inl e, h))
   \<and> (\<forall>e. fst (fetch_landmarks mp self rgb_frame h) = Inl e \<longleftrightarrow>
         fst (process mp (hands_objs h (hand_processor self)) (ndarrays h rgb_frame)) = Inl e)
   \<and> hands_objs (snd (snd (fetch_landmarks mp self rgb_frame h))) (hand_processor self)
       = snd (process mp (hands_objs h (hand_processor self)) (ndarrays h rgb_frame))"
proof (intro conjI allI impI)
  show "fst (init mp max_num_hands min_detection_confidence min_tracking_confidence h) =
     (case Hands mp max_num_hands min_detection_confidence min_tracking_confidence of
        Inl e \<Rightarrow> Inl e
      | Inr eng \<Rightarrow> Inr \<lparr>hand_processor = next_ref h\<rparr>)"
    by (simp add: init_def split: sum.splits)
next
  fix eng
  assume "Hands mp max_num_hands min_detection_confidence min_tracking_confidence = Inr eng"
  then show "hands_objs (snd (init mp max_num_hands min_detection_confidence min_tracking_confidence h))
           (next_ref h) = eng"
    by (simp add: init_def)
next
  fix e
  assume "Hands mp max_num_hands min_detection_confidence min_tracking_confidence = Inl e"
  then show "init mp max_num_hands min_detection_confidence min_tracking_confidence h = (Inl e, h)"
    by (simp add: init_def)
next
  fix e
  show "fst (fetch_landmarks mp self rgb_frame h) = Inl e \<longleftrightarrow>
         fst (process mp (hands_objs h (hand_processor self)) (ndarrays h rgb_frame)) = Inl e"
    by (simp add: fetch_landmarks_fst split: sum.splits)
next
  show "hands_objs (snd (snd (fetch_landmarks mp self rgb_frame h))) (hand_processor self)
       = snd (process mp (hands_objs h (hand_processor self)) (ndarrays h rgb_frame))"
    by (simp add: fetch_landmarks_state)
qed

text \<open>
  Runs with the test double: out-of-range arguments are rejected by the engine's
  constructor, in-range arguments are accepted, and a frame that the engine rejects makes
  \<open>fetch_landmarks\<close> raise the engine's exception after one call of \<open>process\<close>.
\<close>

theorem errors_delegated_to_engine_witness:
  "Hands stub_mp 0 (1/2) (1/2) = Inl ValueError
   \<and> init stub_mp 0 (1/2) (1/2) stub_heap = (Inl ValueError, stub_heap)
   \<and> Hands stub_mp 2 (3/2) (-1) = Inl ValueError
   \<and> init stub_mp 2 (3/2) (-1) stub_heap = (Inl ValueError, stub_heap)
   \<and> Hands stub_mp 2 (1/2) (1/2) = Inr 0
   \<and> fst (init stub_mp 2 (1/2) (1/2) stub_heap) = Inr \<lparr>hand_processor = 10\<rparr>
   \<and> hands_objs (snd (init stub_mp 2 (1/2) (1/2) stub_heap)) 10 = 0
   \<and> fst (process stub_mp (hands_objs stub_heap (hand_processor stub_self)) (ndarrays stub_heap 9))
       = Inl RuntimeError
   \<and> fst (fetch_landmarks stub_mp stub_self 9 stub_heap) = Inl RuntimeError
   \<and> hands_objs (snd (snd (fetch_landmarks stub_mp stub_self 9 stub_heap))) (hand_processor stub_self)
       = 1"
proof -
  have a: "Hands stub_mp 0 (1/2) (1/2) = Inl ValueError" by (simp add: stub_mp_def)
  have b: "Hands stub_mp 2 (3/2) (-1) = Inl ValueError" by (simp add: stub_mp_def)
  have c: "Hands stub_mp 2 (1/2) (1/2) = Inr 0" by (simp add: stub_mp_def)
  have n: "next_ref stub_heap = 10" by (simp add: stub_heap_def)
  have p: "fst (process stub_mp (hands_objs stub_heap (hand_processor stub_self)) (ndarrays stub_heap 9))
       = Inl RuntimeError"
    by (simp add: stub_mp_def stub_self_def stub_heap_def stub_results_def)
  have q: "snd (process stub_mp (hands_objs stub_heap (hand_processor stub_self)) (ndarrays stub_heap 9))
       = 1"
    by (simp add: stub_mp_def stub_self_def stub_heap_def)
  have a': "init stub_mp 0 (1/2) (1/2) stub_heap = (Inl ValueError, stub_heap)"
    using errors_delegated_to_engine
      [where mp = stub_mp and max_num_hands = 0 and min_detection_confidence = "1/2"
         and min_tracking_confidence = "1/2" and h = stub_heap and self = stub_self
         and rgb_frame = 9] a by blast
  have b': "init stub_mp 2 (3/2) (-1) stub_heap = (Inl ValueError, stub_heap)"
    using errors_delegated_to_engine
      [where mp = stub_mp and max_num_hands = 2 and min_detection_confidence = "3/2"
         and min_tracking_confidence = "-1" and h = stub_heap and self = stub_self
         and rgb_frame = 9] b by blast
  note t = errors_delegated_to_engine
      [where mp = stub_mp and max_num_hands = 2 and min_detection_confidence = "1/2"
         and min_tracking_confidence = "1/2" and h = stub_heap and self = stub_self
         and rgb_frame = 9]
  have c1: "fst (init stub_mp 2 (1/2) (1/2) stub_heap) = Inr \<lparr>hand_processor = 10\<rparr>"
    using t c n by simp
  have c2: "hands_objs (snd (init stub_mp 2 (1/2) (1/2) stub_heap)) 10 = 0"
    using t c n by auto
  have f1: "fst (fetch_landmarks stub_mp stub_self 9 stub_heap) = Inl RuntimeError"
    using t p by blast
  have f2: "hands_objs (snd (snd (fetch_landmarks stub_mp stub_self 9 stub_heap)))
      (hand_processor stub_self) = 1"
    using t q by simp
  from a a' b b' c c1 c2 p f1 f2 show ?thesis by blast
qed

subsection \<open>C8: the frame and the detector are left as they were\<close>

text \<open>
  Claim C8. \<open>fetch_landmarks\<close> and \<open>fetch_landmark_position\<close> leave every array of
  the store, hence the caller's frame, unchanged; they leave the detector's attribute
  \<open>hand_processor\<close> unchanged and allocate nothing; of the engine objects only the
  detector's own engine may be in a new internal state.
\<close>

theorem frame_and_detector_unchanged:
  "(case fetch_landmarks mp self rgb_frame h of
      (res, self', h') \<Rightarrow>
        self' = self \<and> ndarrays h' = ndarrays h \<and> next_ref h' = next_ref h
        \<and> (\<forall>a. a \<noteq> hand_processor self \<longrightarrow> hands_objs h' a = hands_objs h a))
   \<and> (case fetch_landmark_position mp self rgb_frame landmark_id h of
      (res, self', h') \<Rightarrow>
        self' = self \<and> ndarrays h' = ndarrays h \<and> next_ref h' = next_ref h
        \<and> (\<forall>a. a \<noteq> hand_processor self \<longrightarrow> hands_objs h' a = hands_objs h a))"
proof -
  have a: "snd (fetch_landmarks mp self rgb_frame h) =
     (self, h\<lparr>hands_objs := (hands_objs h)(hand_processor self :=
                 snd (process mp (hands_objs h (hand_processor self)) (ndarrays h rgb_frame)))\<rparr>)"
    by (rule fetch_landmarks_state)
  have b: "snd (fetch_landmark_position mp self rgb_frame landmark_id h) =
     (self, h\<lparr>hands_objs := (hands_objs h)(hand_processor self :=
                 snd (process mp (hands_objs h (hand_processor self)) (ndarrays h rgb_frame)))\<rparr>)"
    by (simp only: fetch_landmark_position_state a)
  from a b show ?thesis by (auto split: prod.splits)
qed

text \<open>
  A run with the test double: the detector, the arrays and the other engine objects are
  the same after the call; the state of the detector's engine went from 0 to 1.
\<close>

theorem frame_and_detector_unchanged_witness:
  "fst (snd (fetch_landmarks stub_mp stub_self 2 stub_heap)) = stub_self
   \<and> ndarrays (snd (snd (fetch_landmarks stub_mp stub_self 2 stub_heap))) = ndarrays stub_heap
   \<and> hands_objs (snd (snd (fetch_landmarks stub_mp stub_self 2 stub_heap))) 3 = hands_objs stub_heap 3
   \<and> hands_objs stub_heap 7 = 0
   \<and> hands_objs (snd (snd (fetch_landmarks stub_mp stub_self 2 stub_heap))) 7 = 1
   \<and> fst (snd (fetch_landmark_position stub_mp stub_self 2 1 stub_heap)) = stub_self
   \<and> ndarrays (snd (snd (fetch_landmark_position stub_mp stub_self 2 1 stub_heap))) = ndarrays stub_heap
   \<and> hands_objs (snd (snd (fetch_landmark_position stub_mp stub_self 2 1 stub_heap))) 3
       = hands_objs stub_heap 3"
proof -
  note t = frame_and_detector_unchanged
    [where mp = stub_mp and self = stub_self and rgb_frame = 2 and h = stub_heap
       and landmark_id = 1]
  have ne: "(3::nat) \<noteq> hand_processor stub_self" by (simp add: stub_self_def)
  have a: "fst (snd (fetch_landmarks stub_mp stub_self 2 stub_heap)) = stub_self"
    "ndarrays (snd (snd (fetch_landmarks stub_mp stub_self 2 stub_heap))) = ndarrays stub_heap"
    "hands_objs (snd (snd (fetch_landmarks stub_mp stub_self 2 stub_heap))) 3 = hands_objs stub_heap 3"
    using t ne by (auto split: prod.splits)
  have b: "fst (snd (fetch_landmark_position stub_mp stub_self 2 1 stub_heap)) = stub_self"
    "ndarrays (snd (snd (fetch_landmark_position stub_mp stub_self 2 1 stub_heap))) = ndarrays stub_heap"
    "hands_objs (snd (snd (fetch_landmark_position stub_mp stub_self 2 1 stub_heap))) 3
       = hands_objs stub_heap 3"
    using t ne by (auto split: prod.splits)
  have c: "hands_objs stub_heap 7 = 0" by (simp add: stub_heap_def)
  have d: "hands_objs (snd (snd (fetch_landmarks stub_mp stub_self 2 stub_heap))) 7 = 1"
    by (simp add: fetch_landmarks_state stub_mp_def stub_self_def stub_heap_def)
  from a b c d show ?thesis by blast
qed

subsection \<open>C9: the keys are a contiguous range\<close>

text \<open>
  Claim C9. When the engine detects one or more hands, the keys of the map returned by
  \<open>fetch_landmarks\<close> are exactly the integers 0 to \<open>M - 1\<close>, each once, where \<open>M\<close> is
  the maximum number of landmarks of a detected hand; the size of the map is \<open>M\<close>.
\<close>

theorem fetch_landmarks_keys_range:
  assumes "process mp (hands_objs h (hand_processor self)) (ndarrays h rgb_frame) = (Inr r, eng')"
    and "detected_hands r \<noteq> []"
    and "M = Max ((\<lambda>hand. length (landmark hand)) ` set (detected_hands r))"
  shows "\<exists>m. fst (fetch_landmarks mp self rgb_frame h) = Inr m
           \<and> set (dict_keys m) = {0..<int M}
           \<and> distinct (dict_keys m)
           \<and> length m = M"
proof -
  let ?m = "for_hands [] (detected_hands r)"
  have res: "fst (fetch_landmarks mp self rgb_frame h) = Inr ?m"
    using assms(1) by (rule fetch_landmarks_result)
  have keys: "map fst ?m = map int [0..<M]"
    using keys_for_hands_upt [of "detected_hands r"] max_landmarks_Max [OF assms(2)] assms(3)
    by simp
  have a: "set (dict_keys ?m) = {0..<int M}"
    unfolding dict_keys_def keys by (rule set_keys_upt)
  have b: "distinct (dict_keys ?m)"
    unfolding dict_keys_def by (rule distinct_keys_for_hands)
  have "length (map fst ?m) = M" unfolding keys by simp
  then have c: "length ?m = M" by simp
  from res a b c show ?thesis by blast
qed

text \<open>
  A run on three hands of 2, 3 and 1 landmarks: three keys, not six.
\<close>

theorem fetch_landmarks_keys_range_witness:
  "fst (process stub_mp (hands_objs stub_heap (hand_processor stub_self)) (ndarrays stub_heap 3))
     = Inr \<lparr>multi_hand_landmarks = Some [hand_b, hand_a, hand_c]\<rparr>
   \<and> map (\<lambda>hand. length (landmark hand)) [hand_b, hand_a, hand_c] = [2, 3, 1]
   \<and> (\<exists>m. fst (fetch_landmarks stub_mp stub_self 3 stub_heap) = Inr m
         \<and> set (dict_keys m) = {0..<3} \<and> distinct (dict_keys m) \<and> length m = 3)"
proof -
  let ?r = "\<lparr>multi_hand_landmarks = Some [hand_b, hand_a, hand_c]\<rparr>"
  have p: "process stub_mp (hands_objs stub_heap (hand_processor stub_self)) (ndarrays stub_heap 3)
      = (Inr ?r, Suc 0)"
    by (simp add: stub_mp_def stub_self_def stub_heap_def stub_results_def)
  have lens: "map (\<lambda>hand. length (landmark hand)) [hand_b, hand_a, hand_c] = [2, 3, 1]"
    by (simp add: hand_a_def hand_b_def hand_c_def)
  have ne: "detected_hands ?r \<noteq> []" by (simp add: detected_hands_def)
  have mx: "(3::nat) = Max ((\<lambda>hand. length (landmark hand)) ` set (detected_hands ?r))"
    by (simp add: detected_hands_def hand_a_def hand_b_def hand_c_def)
  have "\<exists>m. fst (fetch_landmarks stub_mp stub_self 3 stub_heap) = Inr m
         \<and> set (dict_keys m) = {0..<int 3} \<and> distinct (dict_keys m) \<and> length m = 3"
    by (rule fetch_landmarks_keys_range [OF p ne mx])
  with p lens show ?thesis by simp
qed

subsection \<open>C10: coordinates are copied verbatim\<close>

text \<open>
  Claim C10. For every engine result, the value stored under a landmark ID is the pair
  of the fields \<open>x\<close> and \<open>y\<close> of the engine's landmark of this ID (in the last hand that
  has it), unchanged, whether or not it lies between 0 and 1; the other fields are
  discarded: engine results whose landmarks agree on \<open>x\<close> and \<open>y\<close> give the same map.
\<close>

theorem fetch_landmarks_values_verbatim:
  assumes "process mp (hands_objs h (hand_processor self)) (ndarrays h rgb_frame) = (Inr r, eng')"
  shows "\<exists>m. fst (fetch_landmarks mp self rgb_frame h) = Inr m
           \<and> (\<forall>k. dict_get m k =
                 (case last_hand_with k (detected_hands r) of
                    None \<Rightarrow> None
                  | Some hand \<Rightarrow> Some (x (landmark hand ! nat k), y (landmark hand ! nat k))))
           \<and> (\<forall>hands'.
                 map (\<lambda>hand. map (\<lambda>lm. (x lm, y lm)) (landmark hand)) hands'
                   = map (\<lambda>hand. map (\<lambda>lm. (x lm, y lm)) (landmark hand)) (detected_hands r)
                 \<longrightarrow> for_hands [] hands' = m)"
proof -
  let ?m = "for_hands [] (detected_hands r)"
  have res: "fst (fetch_landmarks mp self rgb_frame h) = Inr ?m"
    using assms by (rule fetch_landmarks_result)
  have val: "\<forall>k. dict_get ?m k =
      (case last_hand_with k (detected_hands r) of
         None \<Rightarrow> None
       | Some hand \<Rightarrow> Some (x (landmark hand ! nat k), y (landmark hand ! nat k)))"
    by (simp add: dict_get_def values_for_hands split: option.splits)
  have proj: "\<forall>hands'.
      map (\<lambda>hand. map (\<lambda>lm. (x lm, y lm)) (landmark hand)) hands'
        = map (\<lambda>hand. map (\<lambda>lm. (x lm, y lm)) (landmark hand)) (detected_hands r)
      \<longrightarrow> for_hands [] hands' = ?m"
    using for_hands_xy by blast
  from res val proj show ?thesis by blast
qed

text \<open>
  A run on a hand partly outside the image: the coordinates 3/2 and -1/4 arrive as they
  are, and changing the field \<open>z\<close> changes nothing.
\<close>

theorem fetch_landmarks_values_verbatim_witness:
  "fst (process stub_mp (hands_objs stub_heap (hand_processor stub_self)) (ndarrays stub_heap 5))
     = Inr \<lparr>multi_hand_landmarks = Some [hand_out]\<rparr>
   \<and> landmark hand_out = [\<lparr>x = 3/2, y = 1/2, z = 0\<rparr>, \<lparr>x = -1/4, y = 1/4, z = 0\<rparr>]
   \<and> (\<exists>m. fst (fetch_landmarks stub_mp stub_self 5 stub_heap) = Inr m
         \<and> dict_get m 0 = Some (3/2, 1/2) \<and> dict_get m 1 = Some (-1/4, 1/4)
         \<and> dict_get m 2 = None
         \<and> for_hands [] [\<lparr>landmark = [\<lparr>x = 3/2, y = 1/2, z = 7\<rparr>, \<lparr>x = -1/4, y = 1/4, z = 8\<rparr>]\<rparr>] = m)"
proof -
  let ?r = "\<lparr>multi_hand_landmarks = Some [hand_out]\<rparr>"
  let ?hs' = "[\<lparr>landmark = [\<lparr>x = 3/2, y = 1/2, z = 7\<rparr>, \<lparr>x = -1/4, y = 1/4, z = 8\<rparr>]\<rparr>]"
  have p: "process stub_mp (hands_objs stub_heap (hand_processor stub_self)) (ndarrays stub_heap 5)
      = (Inr ?r, Suc 0)"
    by (simp add: stub_mp_def stub_self_def stub_heap_def stub_results_def)
  have l: "landmark hand_out = [\<lparr>x = 3/2, y = 1/2, z = 0\<rparr>, \<lparr>x = -1/4, y = 1/4, z = 0\<rparr>]"
    by (simp add: hand_out_def)
  have dh: "detected_hands ?r = [hand_out]" by (simp add: detected_hands_def)
  obtain m where m: "fst (fetch_landmarks stub_mp stub_self 5 stub_heap) = Inr m"
    and val: "\<forall>k. dict_get m k =
       (case last_hand_with k (detected_hands ?r) of
          None \<Rightarrow> None
        | Some hand \<Rightarrow> Some (x (landmark hand ! nat k), y (landmark hand ! nat k)))"
    and proj: "\<forall>hands'.
       map (\<lambda>hand. map (\<lambda>lm. (x lm, y lm)) (landmark hand)) hands'
         = map (\<lambda>hand. map (\<lambda>lm. (x lm, y lm)) (landmark hand)) (detected_hands ?r)
       \<longrightarrow> for_hands [] hands' = m"
    using fetch_landmarks_values_verbatim [OF p] by blast
  have v0: "dict_get m 0 = Some (3/2, 1/2)" using val by (simp add: dh l)
  have v1: "dict_get m 1 = Some (-1/4, 1/4)" using val by (simp add: dh l)
  have v2: "dict_get m 2 = None" using val by (simp add: dh l)
  have "map (\<lambda>hand. map (\<lambda>lm. (x lm, y lm)) (landmark hand)) ?hs'
         = map (\<lambda>hand. map (\<lambda>lm. (x lm, y lm)) (landmark hand)) (detected_hands ?r)"
    by (simp add: dh l)
  with proj have z: "for_hands [] ?hs' = m" by blast
  from p have p': "fst (process stub_mp (hands_objs stub_heap (hand_processor stub_self))
      (ndarrays stub_heap 5)) = Inr ?r" by simp
  from p' l m v0 v1 v2 z show ?thesis by blast
qed

end
